theory Spec2Isabelle
  imports Complex_Main "HOL-Library.Multiset" "HOL-Library.Char_ord" "HOL-Library.List_Lexorder"
begin

section \<open>Image similarity search: feature cache and ranking (src/app.py)\<close>

text \<open>
  Floating-point numbers are modelled as exact reals, NumPy arrays as lists, exceptions as
  the left summand of a result type. The embedding network and \<open>np.argsort\<close> are
  parameters of the functions that call them.
\<close>

subsection \<open>Exceptions\<close>

datatype error =
    ValueError   \<comment> \<open>shape checks of NumPy and scikit-learn\<close>
  | IndexError   \<comment> \<open>index out of range\<close>
  | ImageError   \<comment> \<open>an image file cannot be read or decoded\<close>
  | LoadError    \<comment> \<open>\<open>np.load\<close> cannot read an existing file (EOFError, ValueError, ...)\<close>
  | NotFinite    \<comment> \<open>a division by zero, see \<open>divide_rows\<close>\<close>

type_synonym embedding = "real list"
type_synonym matrix = "real list list"

text \<open>\<open>extract_features(file_path, model)\<close> with the model fixed: the flattened output of
  the network on the image at a path, or the exception raised while loading the image.\<close>

type_synonym extractor = "string \<Rightarrow> error + embedding"

subsection \<open>Python slices and comprehensions\<close>

text \<open>Python's slice \<open>xs[:k]\<close>: a negative \<open>k\<close> counts from the end.\<close>

definition slice_to :: "int \<Rightarrow> 'a list \<Rightarrow> 'a list" where
  "slice_to k xs = (if 0 \<le> k then take (nat k) xs else take (length xs - nat (- k)) xs)"

text \<open>A list comprehension whose element expression may raise: the first exception ends it.\<close>

fun comprehension :: "('a \<Rightarrow> error + 'b) \<Rightarrow> 'a list \<Rightarrow> error + 'b list" where
  "comprehension f [] = Inr []"
| "comprehension f (x # xs) =
     (case f x of
        Inl e \<Rightarrow> Inl e
      | Inr y \<Rightarrow> (case comprehension f xs of Inl e \<Rightarrow> Inl e | Inr ys \<Rightarrow> Inr (y # ys)))"

subsection \<open>scikit-learn: \<open>normalize\<close> and \<open>cosine_similarity\<close>\<close>

text \<open>\<open>check_array\<close>: a 2-D array with at least one sample and one feature. A ragged list
  of rows is no 2-D array.\<close>

definition check_array :: "matrix \<Rightarrow> error + matrix" where
  "check_array X =
     (if X = [] then Inl ValueError
      else if list_ex (\<lambda>r. length r \<noteq> length (hd X)) X then Inl ValueError
      else if length (hd X) = 0 then Inl ValueError
      else Inr X)"

text \<open>\<open>normalize(X)\<close> with the default L2 norm along axis 1 (named \<open>normalize_l2\<close> here).\<close>

definition l2_norm :: "embedding \<Rightarrow> real" where
  "l2_norm r = sqrt (sum_list (map (\<lambda>x. x * x) r))"

definition row_norms :: "matrix \<Rightarrow> real list" where
  "row_norms X = map l2_norm X"

text \<open>\<open>_handle_zeros_in_scale\<close>: a norm that is zero, or below the threshold \<open>tiny\<close>
  (ten machine epsilons in current releases, absent in older ones), is replaced by 1.\<close>

definition handle_zeros_in_scale :: "real \<Rightarrow> real list \<Rightarrow> real list" where
  "handle_zeros_in_scale tiny scale = map (\<lambda>s. if s < tiny \<or> s = 0 then 1 else s) scale"

text \<open>The division \<open>X /= norms[:, None]\<close>. On a zero divisor NumPy raises nothing: it puts
  nan or inf into the array. The reals of this model hold neither, so there the model ends
  the run with \<open>NotFinite\<close>.\<close>

definition divide_rows :: "matrix \<Rightarrow> real list \<Rightarrow> error + matrix" where
  "divide_rows X norms =
     comprehension
       (\<lambda>p. if snd p = 0 then Inl NotFinite else Inr (map (\<lambda>x. x / snd p) (fst p)))
       (zip X norms)"

definition normalize_l2 :: "real \<Rightarrow> matrix \<Rightarrow> error + matrix" where
  "normalize_l2 tiny X =
     (case check_array X of
        Inl e \<Rightarrow> Inl e
      | Inr X' \<Rightarrow>
          let norms = handle_zeros_in_scale tiny (row_norms X')
          in divide_rows X' norms)"

definition dot :: "embedding \<Rightarrow> embedding \<Rightarrow> real" where
  "dot x y = sum_list (map2 (*) x y)"

definition check_pairwise_arrays :: "matrix \<Rightarrow> matrix \<Rightarrow> error + matrix \<times> matrix" where
  "check_pairwise_arrays X Y =
     (case check_array X of
        Inl e \<Rightarrow> Inl e
      | Inr X' \<Rightarrow>
          (case check_array Y of
             Inl e \<Rightarrow> Inl e
           | Inr Y' \<Rightarrow>
               if length (hd X') \<noteq> length (hd Y') then Inl ValueError else Inr (X', Y')))"

definition cosine_similarity :: "real \<Rightarrow> matrix \<Rightarrow> matrix \<Rightarrow> error + matrix" where
  "cosine_similarity tiny X Y =
     (case check_pairwise_arrays X Y of
        Inl e \<Rightarrow> Inl e
      | Inr (X', Y') \<Rightarrow>
          (case normalize_l2 tiny X' of
             Inl e \<Rightarrow> Inl e
           | Inr X_normalized \<Rightarrow>
               (case normalize_l2 tiny Y' of
                  Inl e \<Rightarrow> Inl e
                | Inr Y_normalized \<Rightarrow>
                    Inr (map (\<lambda>x. map (\<lambda>y. dot x y) Y_normalized) X_normalized))))"

subsection \<open>Recursively collect all image files\<close>

text \<open>A directory: the names of its files and its subdirectories, in the order the
  operating system lists them.\<close>

datatype dir = Dir (files: "string list") (subdirs: "(string \<times> dir) list")

text \<open>\<open>os.path.join\<close> on two components (POSIX).\<close>

definition join :: "string \<Rightarrow> string \<Rightarrow> string" where
  "join a b =
     (if b \<noteq> [] \<and> hd b = CHR ''/'' then b
      else if a = [] \<or> last a = CHR ''/'' then a @ b
      else a @ ''/'' @ b)"

text \<open>\<open>os.walk\<close>, top-down: one pair (directory path, file names) for every directory.\<close>

fun os_walk :: "string \<Rightarrow> dir \<Rightarrow> (string \<times> string list) list" where
  "os_walk dirpath (Dir fs ds) =
     (dirpath, fs) # concat (map (\<lambda>p. os_walk (join dirpath (fst p)) (snd p)) ds)"

text \<open>\<open>str.lower\<close> on file names: the letters A to Z are mapped to a to z, every other
  character is kept.\<close>

definition lower_char :: "char \<Rightarrow> char" where
  "lower_char c =
     (let n = (of_char c :: nat) in if 65 \<le> n \<and> n \<le> 90 then char_of (n + 32) else c)"

definition lower :: "string \<Rightarrow> string" where
  "lower s = map lower_char s"

definition valid_ext :: "string list" where
  "valid_ext = [''.jpg'', ''.jpeg'', ''.png'', ''.bmp'', ''.tiff'']"

text \<open>\<open>s.endswith(t)\<close> for a tuple \<open>t\<close> of suffixes.\<close>

definition endswith :: "string \<Rightarrow> string list \<Rightarrow> bool" where
  "endswith s t = list_ex (\<lambda>e. length e \<le> length s \<and> drop (length s - length e) s = e) t"

text \<open>\<open>sorted\<close> orders strings lexicographically by character code, as the order on
  \<open>string\<close> does here.\<close>

definition get_all_image_files :: "string \<Rightarrow> dir \<Rightarrow> string list" where
  "get_all_image_files root_dir tree =
     sort (concat (map (\<lambda>(subdir, filenames).
                          map (join subdir) (filter (\<lambda>f. endswith (lower f) valid_ext) filenames))
                       (os_walk root_dir tree)))"

subsection \<open>Compute or load features\<close>

text \<open>A file written by \<open>np.save\<close> holds an array; any other content of a cache file is
  one \<open>np.load\<close> cannot read.\<close>

datatype 'a artifact = Array 'a | Unreadable

text \<open>What the program reads and writes besides the image tree: the two cache files
  (absent, or present with their content), the files under \<open>temp/\<close>, and the messages shown
  with \<open>st.error\<close>.\<close>

record world =
  features_npy :: "matrix artifact option"
  filenames_npy :: "string list artifact option"
  temp_files :: "string list"
  st_errors :: "string list"

definition np_save_features :: "matrix \<Rightarrow> world \<Rightarrow> world" where
  "np_save_features features w = w\<lparr>features_npy := Some (Array features)\<rparr>"

definition np_save_filenames :: "string list \<Rightarrow> world \<Rightarrow> world" where
  "np_save_filenames filenames w = w\<lparr>filenames_npy := Some (Array filenames)\<rparr>"

definition np_load :: "'a artifact \<Rightarrow> error + 'a" where
  "np_load a = (case a of Array x \<Rightarrow> Inr x | Unreadable \<Rightarrow> Inl LoadError)"

text \<open>\<open>stqdm\<close> yields the items in order; the progress bar it drives is not modelled.\<close>

definition stqdm :: "'a list \<Rightarrow> 'a list" where
  "stqdm items = items"

definition compute_and_cache_features ::
  "real \<Rightarrow> extractor \<Rightarrow> string \<Rightarrow> dir \<Rightarrow> world \<Rightarrow> error + (string list \<times> matrix) \<times> world" where
  "compute_and_cache_features tiny extract_features image_dir tree w =
     (let filenames = get_all_image_files image_dir tree in
      if length filenames = 0 then
        Inr (([], []),
             w\<lparr>st_errors := st_errors w @
                  [''No image files found in '' @ image_dir @ '' or its subfolders.'']\<rparr>)
      else
        (case comprehension extract_features (stqdm filenames) of
           Inl e \<Rightarrow> Inl e
         | Inr features0 \<Rightarrow>
             (case normalize_l2 tiny features0 of
                Inl e \<Rightarrow> Inl e
              | Inr features \<Rightarrow>
                  Inr ((filenames, features),
                       np_save_filenames filenames (np_save_features features w)))))"

text \<open>The decorator \<open>@st.cache_data\<close>. The memo lives as long as the process and is keyed by
  the arguments of the call; the model argument is the one shared instance, so the key here
  is the directory. A call whose key is in the memo does not run the function: it returns
  the stored value and shows again the messages the stored run has shown. Otherwise the
  function runs, and when it returns, its value and its messages are stored.\<close>

type_synonym 'v memo = "(string \<times> 'v \<times> string list) list"

definition st_cache_data ::
  "(world \<Rightarrow> error + 'v \<times> world) \<Rightarrow> string \<Rightarrow> 'v memo \<Rightarrow> world \<Rightarrow> error + 'v \<times> 'v memo \<times> world" where
  "st_cache_data body key memo w =
     (case map_of memo key of
        Some (v, shown) \<Rightarrow> Inr (v, memo, w\<lparr>st_errors := st_errors w @ shown\<rparr>)
      | None \<Rightarrow>
          (case body w of
             Inl e \<Rightarrow> Inl e
           | Inr (v, w') \<Rightarrow>
               Inr (v, (key, v, drop (length (st_errors w)) (st_errors w')) # memo, w')))"

text \<open>Lines 76 to 82, the function under the decorator: the file names are loaded first,
  then the features.\<close>

definition load_image_features_body ::
  "real \<Rightarrow> extractor \<Rightarrow> string \<Rightarrow> dir \<Rightarrow> world \<Rightarrow> error + (string list \<times> matrix) \<times> world" where
  "load_image_features_body tiny extract_features image_dir tree w =
     (case (features_npy w, filenames_npy w) of
        (Some feat_cache, Some name_cache) \<Rightarrow>
          (case np_load name_cache of
             Inl e \<Rightarrow> Inl e
           | Inr filenames \<Rightarrow>
               (case np_load feat_cache of
                  Inl e \<Rightarrow> Inl e
                | Inr features \<Rightarrow> Inr ((filenames, features), w)))
      | _ \<Rightarrow> compute_and_cache_features tiny extract_features image_dir tree w)"

definition load_image_features ::
  "real \<Rightarrow> extractor \<Rightarrow> string \<Rightarrow> dir \<Rightarrow> (string list \<times> matrix) memo \<Rightarrow> world
     \<Rightarrow> error + (string list \<times> matrix) \<times> (string list \<times> matrix) memo \<times> world" where
  "load_image_features tiny extract_features image_dir tree memo w =
     st_cache_data (load_image_features_body tiny extract_features image_dir tree) image_dir memo w"

subsection \<open>Similar image search\<close>

text \<open>What NumPy documents of \<open>np.argsort\<close> for every sorting kind: the result lists each
  index once, and reading the array in that order gives ascending values. The default kind
  (quicksort) is documented as not stable, so nothing is said of equal values.\<close>

definition argsort_ok :: "(real list \<Rightarrow> nat list) \<Rightarrow> bool" where
  "argsort_ok argsort \<longleftrightarrow>
     (\<forall>a. mset (argsort a) = mset [0..<length a] \<and> sorted (map (\<lambda>i. a ! i) (argsort a)))"

definition find_similar_images ::
  "real \<Rightarrow> (real list \<Rightarrow> nat list) \<Rightarrow> extractor \<Rightarrow> string \<Rightarrow> matrix \<Rightarrow> string list \<Rightarrow> int
     \<Rightarrow> error + (string \<times> real) list" where
  "find_similar_images tiny argsort extract_features query_img_path features_db filenames_db top_n =
     (case extract_features query_img_path of
        Inl e \<Rightarrow> Inl e
      | Inr qf0 \<Rightarrow>
          (case normalize_l2 tiny [qf0] of
             Inl e \<Rightarrow> Inl e
           | Inr qn \<Rightarrow>
               (case cosine_similarity tiny [hd qn] features_db of
                  Inl e \<Rightarrow> Inl e
                | Inr K \<Rightarrow>
                    let sims = hd K;
                        top_idx = slice_to top_n (argsort (map uminus sims))
                    in comprehension
                         (\<lambda>i. if i < length filenames_db \<and> i < length sims
                              then Inr (filenames_db ! i, sims ! i) else Inl IndexError)
                         top_idx)))"

text \<open>A sort meeting the contract of \<open>np.argsort\<close>, for running the ranking on examples.\<close>

definition stable_argsort :: "real list \<Rightarrow> nat list" where
  "stable_argsort a = sort_key (\<lambda>i. a ! i) [0..<length a]"

subsection \<open>The query section of the script (lines 122 to 145)\<close>

text \<open>An uploaded file: its name, and whether PIL can decode its bytes.\<close>

record upload =
  upload_name :: string
  upload_decodes :: bool

definition TOP_N :: int where
  "TOP_N = 5"

text \<open>Lines 136 to 142: the search, then every result image is opened for display.
  \<open>image_open\<close> says whether \<open>Image.open\<close> succeeds on a path.\<close>

definition search_and_show ::
  "real \<Rightarrow> (real list \<Rightarrow> nat list) \<Rightarrow> extractor \<Rightarrow> (string \<Rightarrow> bool) \<Rightarrow> matrix \<Rightarrow> string list
     \<Rightarrow> string \<Rightarrow> error + (string \<times> real) list" where
  "search_and_show tiny argsort extract_features image_open image_feats image_files query_to_use =
     (case find_similar_images tiny argsort extract_features query_to_use image_feats image_files TOP_N of
        Inl e \<Rightarrow> Inl e
      | Inr results \<Rightarrow>
          if list_all (\<lambda>(img_path, score). image_open img_path) results
          then Inr results else Inl ImageError)"

text \<open>The result is the world the script leaves behind, with the exception that ended
  it or the results it displayed.\<close>

definition run_query ::
  "real \<Rightarrow> (real list \<Rightarrow> nat list) \<Rightarrow> extractor \<Rightarrow> (string \<Rightarrow> bool) \<Rightarrow> matrix \<Rightarrow> string list
     \<Rightarrow> string \<Rightarrow> upload option \<Rightarrow> world \<Rightarrow> world \<times> (error + (string \<times> real) list)" where
  "run_query tiny argsort extract_features image_open image_feats image_files selected_path uploaded w =
     (case uploaded of
        Some u \<Rightarrow>
          if \<not> upload_decodes u then (w, Inl ImageError)
          else
            let query_path = join ''temp'' (upload_name u);
                w1 = w\<lparr>temp_files := List.insert query_path (temp_files w)\<rparr>
            in (case search_and_show tiny argsort extract_features image_open
                       image_feats image_files query_path of
                  Inl e \<Rightarrow> (w1, Inl e)
                | Inr results \<Rightarrow>
                    (w1\<lparr>temp_files := removeAll query_path (temp_files w1)\<rparr>, Inr results))
      | None \<Rightarrow>
          if \<not> image_open selected_path then (w, Inl ImageError)
          else (w, search_and_show tiny argsort extract_features image_open
                     image_feats image_files selected_path))"

subsection \<open>Auxiliary notions for the statements\<close>

text \<open>One row after \<open>normalize_l2\<close>, and the scores \<open>cosine_similarity\<close> gives a query
  against the rows of a matrix (it normalizes both sides once more).\<close>

definition scaled_row :: "real \<Rightarrow> embedding \<Rightarrow> embedding" where
  "scaled_row tiny r =
     map (\<lambda>x. x / (if l2_norm r < tiny \<or> l2_norm r = 0 then 1 else l2_norm r)) r"

definition scores :: "real \<Rightarrow> embedding \<Rightarrow> matrix \<Rightarrow> real list" where
  "scores tiny qf features_db =
     map (\<lambda>r. dot (scaled_row tiny qf) (scaled_row tiny r)) features_db"














section \<open>Properties\<close>

subsection \<open>Normalization\<close>

lemma check_array_Inr:
  assumes "check_array X = Inr Y"
  shows "Y = X \<and> X \<noteq> [] \<and> (\<forall>r\<in>set X. length r = length (hd X)) \<and> 0 < length (hd X)"
proof -
  have ne: "X \<noteq> []"
    using assms by (cases "X = []") (simp_all add: check_array_def)
  have rect: "\<not> list_ex (\<lambda>r. length r \<noteq> length (hd X)) X"
    using assms ne by (cases "list_ex (\<lambda>r. length r \<noteq> length (hd X)) X") (simp_all add: check_array_def)
  have pos: "length (hd X) \<noteq> 0"
    using assms ne rect by (cases "length (hd X) = 0") (simp_all add: check_array_def)
  have eq: "Y = X"
    using assms ne rect pos by (simp add: check_array_def)
  from rect have "\<forall>r\<in>set X. length r = length (hd X)"
    unfolding list_ex_iff by blast
  with ne pos eq show ?thesis by blast
qed

lemma check_array_ok:
  assumes "X \<noteq> []" and "\<forall>r\<in>set X. length r = D" and "0 < D"
  shows "check_array X = Inr X"
proof -
  from assms(1) have "hd X \<in> set X" by simp
  with assms(2) have hd: "length (hd X) = D" by blast
  from assms(2) hd have "\<not> list_ex (\<lambda>r. length r \<noteq> length (hd X)) X"
    unfolding list_ex_iff by blast
  with assms(1,3) hd show ?thesis by (simp add: check_array_def)
qed

lemma map2_same: "map2 f xs (map g xs) = map (\<lambda>x. f x (g x)) xs"
  by (induction xs) auto

lemma comprehension_all_ok:
  "\<forall>x\<in>set xs. f x = Inr (g x) \<Longrightarrow> comprehension f xs = Inr (map g xs)"
  by (induction xs) simp_all

lemma handle_zeros_in_scale_nonzero: "\<forall>n\<in>set (handle_zeros_in_scale tiny scale). n \<noteq> 0"
  by (auto simp: handle_zeros_in_scale_def)

lemma divide_rows_ok:
  assumes "\<forall>n\<in>set norms. n \<noteq> 0"
  shows "divide_rows X norms = Inr (map2 (\<lambda>r n. map (\<lambda>x. x / n) r) X norms)"
proof -
  have "\<forall>p\<in>set (zip X norms).
          (if snd p = 0 then Inl NotFinite else Inr (map (\<lambda>x. x / snd p) (fst p))) =
          (Inr (map (\<lambda>x. x / snd p) (fst p)) :: error + embedding)"
  proof
    fix p assume "p \<in> set (zip X norms)"
    then have "(fst p, snd p) \<in> set (zip X norms)" by simp
    then have "snd p \<in> set norms" by (rule set_zip_rightD)
    with assms have "snd p \<noteq> 0" by blast
    then show "(if snd p = 0 then Inl NotFinite else Inr (map (\<lambda>x. x / snd p) (fst p))) =
          (Inr (map (\<lambda>x. x / snd p) (fst p)) :: error + embedding)" by simp
  qed
  then have "divide_rows X norms = Inr (map (\<lambda>p. map (\<lambda>x. x / snd p) (fst p)) (zip X norms))"
    unfolding divide_rows_def by (rule comprehension_all_ok)
  then show ?thesis by (simp add: case_prod_unfold)
qed

lemma normalize_l2_rows:
  assumes "check_array X = Inr X"
  shows "normalize_l2 tiny X = Inr (map (scaled_row tiny) X)"
proof -
  have "divide_rows X (handle_zeros_in_scale tiny (row_norms X)) =
          Inr (map2 (\<lambda>r n. map (\<lambda>x. x / n) r) X (handle_zeros_in_scale tiny (row_norms X)))"
    by (rule divide_rows_ok [OF handle_zeros_in_scale_nonzero])
  also have "map2 (\<lambda>r n. map (\<lambda>x. x / n) r) X (handle_zeros_in_scale tiny (row_norms X)) =
          map (scaled_row tiny) X"
    by (simp add: row_norms_def handle_zeros_in_scale_def map2_same scaled_row_def)
  finally show ?thesis using assms by (simp add: normalize_l2_def)
qed


text \<open>The guard of \<open>_handle_zeros_in_scale\<close> keeps every divisor away from zero: the only
  error \<open>normalize_l2\<close> can end in is the shape check's.\<close>

lemma normalize_l2_error:
  assumes "normalize_l2 tiny X = Inl e"
  shows "e = ValueError"
proof (cases "check_array X")
  case (Inl e')
  then have "e' = ValueError" by (simp add: check_array_def split: if_splits)
  with Inl assms show ?thesis by (simp add: normalize_l2_def)
next
  case (Inr X')
  then have "X' = X" by (simp add: check_array_def split: if_splits)
  with Inr have "check_array X = Inr X" by simp
  from normalize_l2_rows [OF this, of tiny] assms show ?thesis by simp
qed

lemma length_scaled_row [simp]: "length (scaled_row tiny r) = length r"
  by (simp add: scaled_row_def)

lemma sum_squares_div:
  "sum_list (map (\<lambda>x. x * x / (n * n)) r) = sum_list (map (\<lambda>x. x * x) r) / (n * n :: real)"
  by (induction r) (auto simp: add_divide_distrib)

lemma sum_squares_nonneg: "0 \<le> sum_list (map (\<lambda>x. x * x) (r :: real list))"
  by (induction r) auto

lemma l2_norm_div: "0 < n \<Longrightarrow> l2_norm (map (\<lambda>x. x / n) r) = l2_norm r / n"
proof -
  assume n: "0 < n"
  have "l2_norm (map (\<lambda>x. x / n) r) = sqrt (sum_list (map (\<lambda>x. x * x) r) / (n * n))"
    by (simp add: l2_norm_def comp_def sum_squares_div)
  also have "\<dots> = l2_norm r / n"
    using n by (simp add: l2_norm_def real_sqrt_divide)
  finally show ?thesis .
qed

lemma l2_norm_scaled_row:
  "tiny \<le> l2_norm r \<Longrightarrow> l2_norm r \<noteq> 0 \<Longrightarrow> l2_norm (scaled_row tiny r) = 1"
proof -
  assume a: "tiny \<le> l2_norm r" "l2_norm r \<noteq> 0"
  have "0 \<le> l2_norm r" unfolding l2_norm_def by (simp add: sum_squares_nonneg)
  with a have pos: "0 < l2_norm r" by simp
  have "scaled_row tiny r = map (\<lambda>x. x / l2_norm r) r"
    using a by (simp add: scaled_row_def)
  then show ?thesis using pos by (simp add: l2_norm_div)
qed

subsection \<open>The feature store\<close>

lemma get_all_image_files_empty:
  "get_all_image_files root_dir tree = [] \<longleftrightarrow>
     (\<forall>p\<in>set (os_walk root_dir tree). \<forall>f\<in>set (snd p). \<not> endswith (lower f) valid_ext)"
proof -
  have "get_all_image_files root_dir tree = [] \<longleftrightarrow>
        set (get_all_image_files root_dir tree) = {}" by simp
  also have "\<dots> \<longleftrightarrow> (\<forall>p\<in>set (os_walk root_dir tree). \<forall>f\<in>set (snd p). \<not> endswith (lower f) valid_ext)"
    unfolding get_all_image_files_def by (auto simp: case_prod_beta filter_empty_conv)
  finally show ?thesis .
qed

text \<open>
  C2 (as the code has it). When no file under the root directory matches the list of image
  extensions, \<open>compute_and_cache_features\<close> raises nothing: it shows an error message and
  returns the empty pair, and it writes neither cache file.
\<close>

theorem empty_corpus_returns_empty_pair:
  assumes "\<forall>p\<in>set (os_walk image_dir tree). \<forall>f\<in>set (snd p). \<not> endswith (lower f) valid_ext"
  shows "compute_and_cache_features tiny extract_features image_dir tree w =
           Inr (([], []),
                w\<lparr>st_errors := st_errors w @
                     [''No image files found in '' @ image_dir @ '' or its subfolders.'']\<rparr>)"
proof -
  have "get_all_image_files image_dir tree = []"
    using assms by (simp only: get_all_image_files_empty)
  then show ?thesis by (simp add: compute_and_cache_features_def)
qed

theorem empty_corpus_returns_empty_pair_witness:
  "compute_and_cache_features 0 (\<lambda>p. Inl ImageError) ''images'' (Dir [''notes.txt''] [(''sub'', Dir [] [])])
       \<lparr>features_npy = None, filenames_npy = None, temp_files = [], st_errors = []\<rparr> =
     Inr (([], []),
          \<lparr>features_npy = None, filenames_npy = None, temp_files = [],
           st_errors = [''No image files found in images or its subfolders.'']\<rparr>)"
  using empty_corpus_returns_empty_pair [of "''images''" "Dir [''notes.txt''] [(''sub'', Dir [] [])]" 0
      "\<lambda>p. Inl ImageError" "\<lparr>features_npy = None, filenames_npy = None, temp_files = [], st_errors = []\<rparr>"]
  by (simp add: endswith_def lower_def lower_char_def valid_ext_def)

text \<open>
  C2 as stated fails: on a directory holding only \<open>notes.txt\<close> the build ends in no
  exception at all.
\<close>

theorem empty_corpus_no_error_counterexample:
  "\<not> (\<exists>e. compute_and_cache_features 0 (\<lambda>p. Inl ImageError) ''images'' (Dir [''notes.txt''] [])
       \<lparr>features_npy = None, filenames_npy = None, temp_files = [], st_errors = []\<rparr> = Inl e)"
  by (simp add: compute_and_cache_features_def get_all_image_files_def endswith_def lower_def
      lower_char_def valid_ext_def)

text \<open>
  C3 (as the code has it). When both cache files exist and the call is not answered from the
  memo of \<open>st.cache_data\<close>, \<open>load_image_features\<close> loads the file names and the features
  and returns them as they are stored, whatever their lengths: the lengths are not compared.
  If one of the two files cannot be read, the error of \<open>np.load\<close> is the outcome. A call
  answered from the memo returns the memoized pair without reading the files.
\<close>

theorem cache_hit_returns_artifacts:
  "(map_of memo image_dir = None \<and>
      features_npy w = Some (Array features) \<and> filenames_npy w = Some (Array filenames)
    \<longrightarrow> load_image_features tiny extract_features image_dir tree memo w =
          Inr ((filenames, features), (image_dir, (filenames, features), []) # memo, w)) \<and>
   (map_of memo image_dir = None \<and>
      features_npy w = Some feat_cache \<and> filenames_npy w = Some name_cache \<and>
      (name_cache = Unreadable \<or> feat_cache = Unreadable)
    \<longrightarrow> load_image_features tiny extract_features image_dir tree memo w = Inl LoadError) \<and>
   (map_of memo image_dir = Some (v, shown)
    \<longrightarrow> load_image_features tiny extract_features image_dir tree memo w =
          Inr (v, memo, w\<lparr>st_errors := st_errors w @ shown\<rparr>))"
proof (intro conjI impI)
  assume "map_of memo image_dir = None \<and>
      features_npy w = Some (Array features) \<and> filenames_npy w = Some (Array filenames)"
  then show "load_image_features tiny extract_features image_dir tree memo w =
          Inr ((filenames, features), (image_dir, (filenames, features), []) # memo, w)"
    by (simp add: load_image_features_def st_cache_data_def load_image_features_body_def
        np_load_def)
next
  assume a: "map_of memo image_dir = None \<and>
      features_npy w = Some feat_cache \<and> filenames_npy w = Some name_cache \<and>
      (name_cache = Unreadable \<or> feat_cache = Unreadable)"
  then have "load_image_features_body tiny extract_features image_dir tree w = Inl LoadError"
    by (cases name_cache; cases feat_cache)
       (simp_all add: load_image_features_body_def np_load_def)
  with a show "load_image_features tiny extract_features image_dir tree memo w = Inl LoadError"
    by (simp add: load_image_features_def st_cache_data_def)
next
  assume "map_of memo image_dir = Some (v, shown)"
  then show "load_image_features tiny extract_features image_dir tree memo w =
          Inr (v, memo, w\<lparr>st_errors := st_errors w @ shown\<rparr>)"
    by (simp add: load_image_features_def st_cache_data_def)
qed

theorem cache_hit_returns_artifacts_witness:
  "load_image_features 0 (\<lambda>p. Inl ImageError) ''images'' (Dir [] []) []
     \<lparr>features_npy = Some (Array [[1, 0]]), filenames_npy = Some (Array [''images/a.jpg'']),
      temp_files = [], st_errors = []\<rparr>
   = Inr (([''images/a.jpg''], [[1, 0]]),
          [(''images'', ([''images/a.jpg''], [[1, 0]]), [])],
          \<lparr>features_npy = Some (Array [[1, 0]]), filenames_npy = Some (Array [''images/a.jpg'']),
           temp_files = [], st_errors = []\<rparr>) \<and>
   load_image_features 0 (\<lambda>p. Inl ImageError) ''images'' (Dir [] []) []
     \<lparr>features_npy = Some Unreadable, filenames_npy = Some (Array [''images/a.jpg'']),
      temp_files = [], st_errors = []\<rparr>
   = Inl LoadError \<and>
   load_image_features 0 (\<lambda>p. Inl ImageError) ''images'' (Dir [] [])
     [(''images'', ([''images/a.jpg''], [[1, 0]]), [])]
     \<lparr>features_npy = None, filenames_npy = None, temp_files = [], st_errors = []\<rparr>
   = Inr (([''images/a.jpg''], [[1, 0]]),
          [(''images'', ([''images/a.jpg''], [[1, 0]]), [])],
          \<lparr>features_npy = None, filenames_npy = None, temp_files = [], st_errors = []\<rparr>)"
proof -
  let ?ex = "\<lambda>p. Inl ImageError :: error + embedding"
  let ?pair = "([''images/a.jpg''], [[1, 0 :: real]])"
  let ?w1 = "\<lparr>features_npy = Some (Array [[1, 0]]), filenames_npy = Some (Array [''images/a.jpg'']),
      temp_files = [], st_errors = []\<rparr>"
  let ?w2 = "\<lparr>features_npy = Some Unreadable, filenames_npy = Some (Array [''images/a.jpg'']),
      temp_files = [], st_errors = []\<rparr>"
  let ?w3 = "\<lparr>features_npy = None, filenames_npy = None, temp_files = [], st_errors = []\<rparr>"
  have a: "load_image_features 0 ?ex ''images'' (Dir [] []) [] ?w1 =
             Inr (?pair, [(''images'', ?pair, [])], ?w1)"
    using cache_hit_returns_artifacts
      [of "[]" "''images''" ?w1 "[[1, 0]]" "[''images/a.jpg'']" 0 ?ex "Dir [] []"]
    by simp
  have b: "load_image_features 0 ?ex ''images'' (Dir [] []) [] ?w2 = Inl LoadError"
    using cache_hit_returns_artifacts
      [of "[]" "''images''" ?w2 _ _ 0 ?ex "Dir [] []" Unreadable "Array [''images/a.jpg'']"]
    by simp
  have c: "load_image_features 0 ?ex ''images'' (Dir [] []) [(''images'', ?pair, [])] ?w3 =
             Inr (?pair, [(''images'', ?pair, [])], ?w3)"
    using cache_hit_returns_artifacts
      [of "[(''images'', ?pair, [])]" "''images''" ?w3 _ _ 0 ?ex "Dir [] []" _ _ ?pair "[]"]
    by simp
  from a b c show ?thesis by simp
qed

text \<open>
  C3 as stated fails: five cached file names paired with a feature matrix of four rows are
  loaded and returned on a first call, and no exception is raised.
\<close>

theorem cache_mismatch_loads_counterexample:
  "load_image_features 0 (\<lambda>p. Inl ImageError) ''images'' (Dir [] []) []
     \<lparr>features_npy = Some (Array [[1, 0], [0, 1], [1, 0], [0, 1]]),
      filenames_npy = Some (Array [''a.jpg'', ''b.jpg'', ''c.jpg'', ''d.jpg'', ''e.jpg'']),
      temp_files = [], st_errors = []\<rparr>
   = Inr (([''a.jpg'', ''b.jpg'', ''c.jpg'', ''d.jpg'', ''e.jpg''], [[1, 0], [0, 1], [1, 0], [0, 1]]),
          [(''images'',
            ([''a.jpg'', ''b.jpg'', ''c.jpg'', ''d.jpg'', ''e.jpg''], [[1, 0], [0, 1], [1, 0], [0, 1]]),
            [])],
          \<lparr>features_npy = Some (Array [[1, 0], [0, 1], [1, 0], [0, 1]]),
           filenames_npy = Some (Array [''a.jpg'', ''b.jpg'', ''c.jpg'', ''d.jpg'', ''e.jpg'']),
           temp_files = [], st_errors = []\<rparr>)"
  by (simp add: load_image_features_def st_cache_data_def load_image_features_body_def np_load_def)

subsection \<open>The ranker\<close>

lemma stable_argsort_ok: "argsort_ok stable_argsort"
  unfolding argsort_ok_def stable_argsort_def by simp

lemma length_scores [simp]: "length (scores tiny qf features_db) = length features_db"
  by (simp add: scores_def)

lemma cosine_similarity_query:
  assumes "length q = D" and "0 < D" and "features_db \<noteq> []"
    and "\<forall>r\<in>set features_db. length r = D"
  shows "cosine_similarity tiny [q] features_db = Inr [scores tiny q features_db]"
proof -
  have cq: "check_array [q] = Inr [q]"
    using assms(1,2) by (intro check_array_ok [where D = D]) simp_all
  have cdb: "check_array features_db = Inr features_db"
    using assms(2,3,4) by (intro check_array_ok [where D = D])
  from assms(3) have "hd features_db \<in> set features_db" by simp
  with assms(4) have "length (hd features_db) = D" by blast
  with assms(1) cq cdb
  have "check_pairwise_arrays [q] features_db = Inr ([q], features_db)"
    by (simp add: check_pairwise_arrays_def)
  then show ?thesis
    by (simp add: cosine_similarity_def normalize_l2_rows [OF cq] normalize_l2_rows [OF cdb]
        scores_def)
qed

lemma find_similar_images_eval:
  assumes "extract_features query_img_path = Inr qf0" and "length qf0 = D" and "0 < D"
    and "features_db \<noteq> []" and "\<forall>r\<in>set features_db. length r = D"
  shows "find_similar_images tiny argsort extract_features query_img_path features_db filenames_db top_n =
         comprehension
           (\<lambda>i. if i < length filenames_db \<and> i < length features_db
                then Inr (filenames_db ! i, scores tiny (scaled_row tiny qf0) features_db ! i)
                else Inl IndexError)
           (slice_to top_n (argsort (map uminus (scores tiny (scaled_row tiny qf0) features_db))))"
proof -
  have cq: "check_array [qf0] = Inr [qf0]"
    using assms(2,3) by (intro check_array_ok [where D = D]) simp_all
  have "length (scaled_row tiny qf0) = D"
    using assms(2) by simp
  from cosine_similarity_query [OF this assms(3,4,5)]
  show ?thesis
    using assms(1) by (simp add: find_similar_images_def normalize_l2_rows [OF cq] Let_def)
qed

lemma argsort_indices:
  assumes "argsort_ok argsort"
  shows "set (argsort a) = {0..<length a}" and "length (argsort a) = length a"
proof -
  from assms have m: "mset (argsort a) = mset [0..<length a]"
    by (simp add: argsort_ok_def)
  from mset_eq_setD [OF m] show "set (argsort a) = {0..<length a}" by simp
  from mset_eq_length [OF m] show "length (argsort a) = length a" by simp
qed

lemma argsort_descending:
  assumes "argsort_ok argsort"
  shows "sorted_wrt (\<lambda>i j. sims ! j \<le> sims ! i) (argsort (map uminus sims))"
proof -
  let ?idx = "argsort (map uminus sims)"
  from assms have "sorted (map (\<lambda>i. map uminus sims ! i) ?idx)"
    by (simp add: argsort_ok_def)
  then have s: "sorted_wrt (\<lambda>i j. map uminus sims ! i \<le> map uminus sims ! j) ?idx"
    by (simp add: sorted_wrt_map)
  have inr: "\<And>i. i \<in> set ?idx \<Longrightarrow> i < length sims"
    using argsort_indices(1) [OF assms, of "map uminus sims"] by simp
  show ?thesis
    by (rule sorted_wrt_mono_rel [OF _ s]) (simp add: inr)
qed

lemma slice_to_take: "\<exists>k. slice_to top_n xs = take k xs"
  by (auto simp: slice_to_def)

lemma find_similar_images_ranked:
  assumes "argsort_ok argsort"
    and "extract_features query_img_path = Inr qf0" and "length qf0 = D" and "0 < D"
    and "features_db \<noteq> []" and "\<forall>r\<in>set features_db. length r = D"
    and "length features_db \<le> length filenames_db"
  shows "find_similar_images tiny argsort extract_features query_img_path features_db filenames_db top_n =
         Inr (map (\<lambda>i. (filenames_db ! i, scores tiny (scaled_row tiny qf0) features_db ! i))
                (slice_to top_n (argsort (map uminus (scores tiny (scaled_row tiny qf0) features_db)))))"
proof -
  let ?sims = "scores tiny (scaled_row tiny qf0) features_db"
  let ?idx = "slice_to top_n (argsort (map uminus ?sims))"
  obtain k where k: "?idx = take k (argsort (map uminus ?sims))"
    using slice_to_take by blast
  have "set ?idx \<subseteq> set (argsort (map uminus ?sims))"
    unfolding k by (rule set_take_subset)
  also have "\<dots> = {0..<length features_db}"
    using argsort_indices(1) [OF assms(1), of "map uminus ?sims"] by simp
  finally have "\<forall>i\<in>set ?idx. i < length filenames_db \<and> i < length features_db"
    using assms(7) by auto
  then have "comprehension
           (\<lambda>i. if i < length filenames_db \<and> i < length features_db
                then Inr (filenames_db ! i, ?sims ! i) else Inl IndexError) ?idx
        = Inr (map (\<lambda>i. (filenames_db ! i, ?sims ! i)) ?idx)"
    by (intro comprehension_all_ok) simp
  then show ?thesis
    by (simp only: find_similar_images_eval
        [where extract_features = extract_features and query_img_path = query_img_path,
          OF assms(2-6)])
qed

lemma dot_divide:
  "dot (map (\<lambda>u. u / a) x) (map (\<lambda>u. u / b) y) = dot x y / (a * b)"
proof -
  have "sum_list (map2 (*) (map (\<lambda>u. u / a) x) (map (\<lambda>u. u / b) y)) =
        sum_list (map2 (*) x y) / (a * b)"
  proof (induction x arbitrary: y)
    case Nil
    then show ?case by simp
  next
    case (Cons u x)
    then show ?case by (cases y) (simp_all add: add_divide_distrib)
  qed
  then show ?thesis by (simp add: dot_def)
qed

lemma scaled_row_unit:
  assumes "l2_norm r = 1"
  shows "scaled_row tiny r = r"
  using assms by (simp add: scaled_row_def)

lemma scaled_row_divide:
  assumes "tiny \<le> l2_norm r" and "l2_norm r \<noteq> 0"
  shows "scaled_row tiny r = map (\<lambda>u. u / l2_norm r) r"
  using assms by (simp add: scaled_row_def)

lemma scores_cosine:
  assumes "i < length features_db"
    and "tiny \<le> l2_norm qf0" and "l2_norm qf0 \<noteq> 0"
    and "tiny \<le> l2_norm (features_db ! i)" and "l2_norm (features_db ! i) \<noteq> 0"
  shows "scores tiny (scaled_row tiny qf0) features_db ! i =
           dot qf0 (features_db ! i) / (l2_norm qf0 * l2_norm (features_db ! i))"
proof -
  have "scaled_row tiny (scaled_row tiny qf0) = scaled_row tiny qf0"
    by (rule scaled_row_unit) (rule l2_norm_scaled_row [OF assms(2,3)])
  then have "scores tiny (scaled_row tiny qf0) features_db ! i =
        dot (scaled_row tiny qf0) (scaled_row tiny (features_db ! i))"
    using assms(1) by (simp add: scores_def)
  also have "\<dots> = dot (map (\<lambda>u. u / l2_norm qf0) qf0)
                      (map (\<lambda>u. u / l2_norm (features_db ! i)) (features_db ! i))"
    by (simp only: scaled_row_divide [OF assms(2,3)] scaled_row_divide [OF assms(4,5)])
  also have "\<dots> = dot qf0 (features_db ! i) / (l2_norm qf0 * l2_norm (features_db ! i))"
    by (rule dot_divide)
  finally show ?thesis .
qed

lemma argsort_distinct:
  assumes "argsort_ok argsort"
  shows "distinct (argsort a)"
proof -
  from assms have "mset (argsort a) = mset [0..<length a]"
    by (simp add: argsort_ok_def)
  then have "distinct (argsort a) = distinct [0..<length a]"
    by (rule mset_eq_imp_distinct_iff)
  then show ?thesis by simp
qed

text \<open>
  C4. Let \<open>np.argsort\<close> meet its contract, let the query image give an embedding of
  dimension \<open>D > 0\<close>, and let the feature matrix be non-empty with rows of dimension \<open>D\<close>
  and as many file names as rows. Then for every \<open>top_n \<ge> 1\<close> the ranking raises
  nothing and returns exactly \<open>min(top_n, n)\<close> pairs, in order of non-increasing score. The
  pairs are the file names and scores of distinct rows, and no row left out scores higher
  than a row returned: the result is the first \<open>min(top_n, n)\<close> entries of the corpus sorted
  by descending score. The score of a row is the cosine similarity of the raw query
  embedding and the row, their dot product divided by the product of their norms, whenever
  neither norm is zero or below the threshold of scikit-learn. A corpus smaller than
  \<open>top_n\<close> gives a shorter result.
\<close>

theorem ranking_length_and_order:
  assumes "argsort_ok argsort"
    and "extract_features query_img_path = Inr qf0" and "length qf0 = D" and "0 < D"
    and "features_db \<noteq> []" and "\<forall>r\<in>set features_db. length r = D"
    and "length filenames_db = length features_db"
    and "1 \<le> top_n"
    and "sims = scores tiny (scaled_row tiny qf0) features_db"
  shows "\<exists>results top_idx.
           find_similar_images tiny argsort extract_features query_img_path
             features_db filenames_db top_n = Inr results \<and>
           results = map (\<lambda>i. (filenames_db ! i, sims ! i)) top_idx \<and>
           length results = min (nat top_n) (length features_db) \<and>
           sorted_wrt (\<lambda>x y. y \<le> x) (map snd results) \<and>
           distinct top_idx \<and> set top_idx \<subseteq> {0..<length features_db} \<and>
           (\<forall>j<length features_db. j \<notin> set top_idx \<longrightarrow> (\<forall>i\<in>set top_idx. sims ! j \<le> sims ! i)) \<and>
           (\<forall>i<length features_db.
              tiny \<le> l2_norm qf0 \<and> l2_norm qf0 \<noteq> 0 \<and>
              tiny \<le> l2_norm (features_db ! i) \<and> l2_norm (features_db ! i) \<noteq> 0 \<longrightarrow>
              sims ! i = dot qf0 (features_db ! i) / (l2_norm qf0 * l2_norm (features_db ! i)))"
proof -
  let ?all = "argsort (map uminus sims)"
  let ?idx = "take (nat top_n) ?all"
  let ?results = "map (\<lambda>i. (filenames_db ! i, sims ! i)) ?idx"
  have n: "length sims = length features_db"
    unfolding assms(9) by simp
  have sl: "slice_to top_n ?all = ?idx"
    using assms(8) by (simp add: slice_to_def)
  have le: "length features_db \<le> length filenames_db"
    using assms(7) by simp
  have run: "find_similar_images tiny argsort extract_features query_img_path
               features_db filenames_db top_n = Inr ?results"
    using find_similar_images_ranked
      [where extract_features = extract_features and query_img_path = query_img_path,
        OF assms(1-6) le, of tiny top_n]
    unfolding assms(9) [symmetric] by (simp only: sl)
  have all_set: "set ?all = {0..<length features_db}"
    using argsort_indices(1) [OF assms(1), of "map uminus sims"] n by simp
  have all_len: "length ?all = length features_db"
    using argsort_indices(2) [OF assms(1), of "map uminus sims"] n by simp
  have len: "length ?results = min (nat top_n) (length features_db)"
    using all_len by simp
  have desc: "sorted_wrt (\<lambda>i j. sims ! j \<le> sims ! i) ?all"
    by (rule argsort_descending [OF assms(1)])
  then have "sorted_wrt (\<lambda>i j. sims ! j \<le> sims ! i) ?idx"
    by (rule sorted_wrt_take)
  then have ord: "sorted_wrt (\<lambda>x y. y \<le> x) (map snd ?results)"
    by (simp add: sorted_wrt_map comp_def)
  have dist: "distinct ?idx"
    by (rule distinct_take) (rule argsort_distinct [OF assms(1)])
  have sub: "set ?idx \<subseteq> {0..<length features_db}"
    using set_take_subset [of "nat top_n" ?all] all_set by simp
  have top: "\<forall>j<length features_db. j \<notin> set ?idx \<longrightarrow> (\<forall>i\<in>set ?idx. sims ! j \<le> sims ! i)"
  proof (intro allI impI ballI)
    fix j i assume j: "j < length features_db" and out: "j \<notin> set ?idx" and i: "i \<in> set ?idx"
    from j all_set have "j \<in> set ?all" by simp
    moreover have "set ?all = set ?idx \<union> set (drop (nat top_n) ?all)"
      by (metis append_take_drop_id set_append)
    ultimately have jd: "j \<in> set (drop (nat top_n) ?all)" using out by blast
    from desc have "sorted_wrt (\<lambda>i j. sims ! j \<le> sims ! i) (?idx @ drop (nat top_n) ?all)"
      by simp
    then have "\<forall>x\<in>set ?idx. \<forall>y\<in>set (drop (nat top_n) ?all). sims ! y \<le> sims ! x"
      by (simp only: sorted_wrt_append) blast
    with i jd show "sims ! j \<le> sims ! i" by blast
  qed
  have cos: "\<forall>i<length features_db.
              tiny \<le> l2_norm qf0 \<and> l2_norm qf0 \<noteq> 0 \<and>
              tiny \<le> l2_norm (features_db ! i) \<and> l2_norm (features_db ! i) \<noteq> 0 \<longrightarrow>
              sims ! i = dot qf0 (features_db ! i) / (l2_norm qf0 * l2_norm (features_db ! i))"
    unfolding assms(9) by (intro allI impI) (simp add: scores_cosine)
  from run len ord dist sub top cos show ?thesis by blast
qed

theorem ranking_length_and_order_witness:
  "\<exists>results.
     find_similar_images 0 stable_argsort (\<lambda>p. Inr [1, 0]) ''temp/q.jpg''
       [[1, 0], [0, 1], [1, 0]] [''a.jpg'', ''b.jpg'', ''c.jpg''] 10 = Inr results \<and>
     length results = 3 \<and>
     sorted_wrt (\<lambda>x y. y \<le> x) (map snd results)"
  using ranking_length_and_order
    [where argsort = stable_argsort and extract_features = "\<lambda>p. Inr [1, 0]"
       and query_img_path = "''temp/q.jpg''" and ?qf0.0 = "[1, 0]" and D = 2
       and features_db = "[[1, 0], [0, 1], [1, 0]]"
       and filenames_db = "[''a.jpg'', ''b.jpg'', ''c.jpg'']" and top_n = 10 and tiny = 0
       and sims = "scores 0 (scaled_row 0 [1, 0]) [[1, 0], [0, 1], [1, 0]]",
     OF stable_argsort_ok]
  by auto

text \<open>A ranking run: of two rows, the one in the direction of the query comes first.\<close>

lemma ranking_example:
  "find_similar_images 0 stable_argsort (\<lambda>p. Inr [1, 0]) ''temp/q.jpg''
     [[0, 1], [2, 0]] [''a.jpg'', ''b.jpg''] 1 =
   Inr [(''b.jpg'', 1)]"
proof -
  have "find_similar_images 0 stable_argsort (\<lambda>p. Inr [1, 0]) ''temp/q.jpg''
          [[0, 1], [2, 0]] [''a.jpg'', ''b.jpg''] 1 =
        comprehension
           (\<lambda>i. if i < length [''a.jpg'', ''b.jpg''] \<and> i < length [[0, 1], [2, 0 :: real]]
                then Inr ([''a.jpg'', ''b.jpg''] ! i,
                          scores 0 (scaled_row 0 [1, 0]) [[0, 1], [2, 0]] ! i)
                else Inl IndexError)
           (slice_to 1 (stable_argsort (map uminus (scores 0 (scaled_row 0 [1, 0]) [[0, 1], [2, 0]]))))"
    by (rule find_similar_images_eval [where D = 2]) simp_all
  also have "\<dots> = Inr [(''b.jpg'', 1)]"
    by (simp add: scores_def scaled_row_def l2_norm_def dot_def stable_argsort_def slice_to_def
      upt_rec)
  finally show ?thesis .
qed

subsection \<open>The corpus scan\<close>





























text \<open>A scan of a directory with one subdirectory.\<close>

lemma scan_example:
  "get_all_image_files ''images''
     (Dir [''b.PNG'', ''notes.txt'', ''a.jpg''] [(''sub'', Dir [''c.JpEg'', ''d.gif''] [])]) =
   [''images/a.jpg'', ''images/b.PNG'', ''images/sub/c.JpEg'']"
  by code_simp

subsection \<open>The cache build\<close>

lemma comprehension_Inr:
  "comprehension f xs = Inr ys \<Longrightarrow>
     length ys = length xs \<and> (\<forall>i<length xs. f (xs ! i) = Inr (ys ! i))"
proof (induction xs arbitrary: ys)
  case Nil
  then show ?case by simp
next
  case (Cons x xs)
  from Cons.prems obtain y ys' where
    y: "f x = Inr y" and ys': "comprehension f xs = Inr ys'" and ys: "ys = y # ys'"
    by (auto split: sum.splits)
  from Cons.IH [OF ys'] have
    len: "length ys' = length xs" and nth: "\<forall>i<length xs. f (xs ! i) = Inr (ys' ! i)"
    by simp_all
  show ?case
  proof (intro conjI allI impI)
    show "length ys = length (x # xs)" using len ys by simp
    fix i assume "i < length (x # xs)"
    then show "f ((x # xs) ! i) = Inr (ys ! i)"
      using y nth ys by (cases i) simp_all
  qed
qed

lemma comprehension_total:
  "\<forall>x\<in>set xs. \<exists>y. f x = Inr y \<Longrightarrow> \<exists>ys. comprehension f xs = Inr ys"
proof (induction xs)
  case Nil
  then show ?case by simp
next
  case (Cons x xs)
  then obtain y where y: "f x = Inr y" by auto
  from Cons obtain ys where ys: "comprehension f xs = Inr ys" by auto
  from y ys show ?case by simp
qed


lemma build_ok:
  assumes "get_all_image_files image_dir tree = filenames" and "filenames \<noteq> []"
    and "comprehension extract_features filenames = Inr raw"
    and "check_array raw = Inr raw"
  shows "compute_and_cache_features tiny extract_features image_dir tree w =
           Inr ((filenames, map (scaled_row tiny) raw),
                np_save_filenames filenames (np_save_features (map (scaled_row tiny) raw) w))"
  using assms
  by (simp add: compute_and_cache_features_def stqdm_def Let_def normalize_l2_rows)

text \<open>Two small corpora, scanned.\<close>

lemma corpus_of_two:
  "get_all_image_files ''images'' (Dir [''b.PNG'', ''notes.txt'', ''a.jpg''] []) =
     [''images/a.jpg'', ''images/b.PNG'']"
  by code_simp









subsection \<open>Zero embeddings\<close>

lemma l2_norm_zeros: "l2_norm (replicate D 0) = 0"
  by (simp add: l2_norm_def sum_list_replicate)

lemma scaled_row_zeros: "scaled_row tiny (replicate D 0) = replicate D 0"
  by (simp add: scaled_row_def l2_norm_zeros)

lemma dot_zeros: "dot x (replicate D 0) = 0"
proof -
  have "sum_list (map2 (*) x (replicate D (0::real))) = 0"
  proof (induction x arbitrary: D)
    case Nil
    then show ?case by simp
  next
    case (Cons a x)
    then show ?case by (cases D) simp_all
  qed
  then show ?thesis by (simp add: dot_def)
qed

text \<open>
  C10. Normalizing the zero vector divides by 1, not by its norm 0: it gives the zero vector
  and no division by zero takes place. If every image of a non-empty corpus yields an
  embedding of dimension \<open>D > 0\<close> and image \<open>k\<close> yields the zero vector, the build completes
  with row \<open>k\<close> the zero vector, a ranking of any query of dimension \<open>D\<close> against the built
  matrix completes, and row \<open>k\<close> scores 0 in it.
\<close>

theorem zero_embedding_is_harmless:
  assumes "0 < D"
    and "get_all_image_files image_dir tree = filenames" and "filenames \<noteq> []"
    and "\<forall>f\<in>set filenames. \<exists>v. extract_features f = Inr v \<and> length v = D"
    and "k < length filenames" and "extract_features (filenames ! k) = Inr (replicate D 0)"
    and "argsort_ok argsort"
    and "extract_features query_img_path = Inr qf0" and "length qf0 = D"
  shows "normalize_l2 tiny [replicate D 0] = Inr [replicate D 0] \<and>
         (\<exists>features w'.
            compute_and_cache_features tiny extract_features image_dir tree w =
              Inr ((filenames, features), w') \<and>
            features ! k = replicate D 0 \<and>
            find_similar_images tiny argsort extract_features query_img_path
                features filenames top_n =
              Inr (map (\<lambda>i. (filenames ! i, scores tiny (scaled_row tiny qf0) features ! i))
                     (slice_to top_n
                        (argsort (map uminus (scores tiny (scaled_row tiny qf0) features))))) \<and>
            scores tiny (scaled_row tiny qf0) features ! k = 0)"
proof -
  have "check_array [replicate D (0::real)] = Inr [replicate D 0]"
    using assms(1) by (intro check_array_ok [where D = D]) simp_all
  then have z: "normalize_l2 tiny [replicate D 0] = Inr [replicate D 0]"
    by (simp add: normalize_l2_rows scaled_row_zeros)
  from assms(4) have "\<forall>f\<in>set filenames. \<exists>v. extract_features f = Inr v" by blast
  from comprehension_total [OF this] obtain raw where
    raw: "comprehension extract_features filenames = Inr raw" ..
  from comprehension_Inr [OF raw] have
    len: "length raw = length filenames"
    and nth: "\<forall>i<length filenames. extract_features (filenames ! i) = Inr (raw ! i)"
    by simp_all
  have dims: "\<forall>r\<in>set raw. length r = D"
  proof
    fix r assume "r \<in> set raw"
    then obtain i where i: "i < length raw" and r: "r = raw ! i"
      by (auto simp: in_set_conv_nth)
    from i len have il: "i < length filenames" by simp
    then have "filenames ! i \<in> set filenames" by (rule nth_mem)
    with assms(4) obtain v where v: "extract_features (filenames ! i) = Inr v" "length v = D"
      by blast
    from nth il have "extract_features (filenames ! i) = Inr (raw ! i)" by blast
    with v r show "length r = D" by simp
  qed
  from len assms(3) have ne: "raw \<noteq> []" by auto
  have ok: "check_array raw = Inr raw"
    using ne dims assms(1) by (rule check_array_ok)
  let ?features = "map (scaled_row tiny) raw"
  let ?w' = "np_save_filenames filenames (np_save_features ?features w)"
  have build: "compute_and_cache_features tiny extract_features image_dir tree w =
                 Inr ((filenames, ?features), ?w')"
    using assms(2,3) raw ok by (rule build_ok)
  from nth assms(5,6) have "raw ! k = replicate D 0" by simp
  with assms(5) len have row: "?features ! k = replicate D 0"
    by (simp add: scaled_row_zeros)
  have fne: "?features \<noteq> []" using ne by simp
  have fdims: "\<forall>r\<in>set ?features. length r = D" using dims by simp
  have fle: "length ?features \<le> length filenames" using len by simp
  have rank: "find_similar_images tiny argsort extract_features query_img_path
                ?features filenames top_n =
              Inr (map (\<lambda>i. (filenames ! i, scores tiny (scaled_row tiny qf0) ?features ! i))
                     (slice_to top_n
                        (argsort (map uminus (scores tiny (scaled_row tiny qf0) ?features)))))"
    by (rule find_similar_images_ranked
      [where extract_features = extract_features and query_img_path = query_img_path,
        OF assms(7,8,9,1) fne fdims fle])
  have kf: "k < length ?features" using assms(5) len by simp
  then have "scores tiny (scaled_row tiny qf0) ?features ! k =
          dot (scaled_row tiny (scaled_row tiny qf0)) (scaled_row tiny (?features ! k))"
    unfolding scores_def by (rule nth_map)
  also have "\<dots> = 0"
    unfolding row by (simp add: scaled_row_zeros dot_zeros)
  finally have zero: "scores tiny (scaled_row tiny qf0) ?features ! k = 0" .
  from z build row rank zero show ?thesis by blast
qed

theorem zero_embedding_is_harmless_witness:
  "normalize_l2 0 [replicate 2 0] = Inr [replicate 2 0] \<and>
   (\<exists>features w'.
      compute_and_cache_features 0
          (\<lambda>p. if p = ''images/a.jpg'' then Inr [0, 0] else Inr [0, 2]) ''images''
          (Dir [''b.PNG'', ''notes.txt'', ''a.jpg''] [])
          \<lparr>features_npy = None, filenames_npy = None, temp_files = [], st_errors = []\<rparr> =
        Inr (([''images/a.jpg'', ''images/b.PNG''], features), w') \<and>
      features ! 0 = replicate 2 0 \<and>
      find_similar_images 0 stable_argsort
          (\<lambda>p. if p = ''images/a.jpg'' then Inr [0, 0] else Inr [0, 2]) ''images/b.PNG''
          features [''images/a.jpg'', ''images/b.PNG''] 5 =
        Inr (map (\<lambda>i. ([''images/a.jpg'', ''images/b.PNG''] ! i,
                         scores 0 (scaled_row 0 [0, 2]) features ! i))
               (slice_to 5 (stable_argsort (map uminus (scores 0 (scaled_row 0 [0, 2]) features))))) \<and>
      scores 0 (scaled_row 0 [0, 2]) features ! 0 = 0)"
proof -
  let ?ex = "\<lambda>p. if p = ''images/a.jpg'' then Inr [0, 0] else (Inr [0, 2] :: error + embedding)"
  have r: "replicate 2 (0::real) = [0, 0]" by (simp add: numeral_2_eq_2)
  have h4: "\<forall>f\<in>set [''images/a.jpg'', ''images/b.PNG'']. \<exists>v. ?ex f = Inr v \<and> length v = 2"
    by simp
  have h6: "?ex ([''images/a.jpg'', ''images/b.PNG''] ! 0) = Inr (replicate 2 0)"
    by (simp add: r)
  have h8: "?ex ''images/b.PNG'' = Inr [0, 2]" by simp
  show ?thesis
    by (rule zero_embedding_is_harmless
      [where extract_features = ?ex and query_img_path = "''images/b.PNG''" and D = 2
         and k = 0 and ?qf0.0 = "[0, 2]" and tiny = 0 and top_n = 5,
       OF _ corpus_of_two _ h4 _ h6 stable_argsort_ok h8]) simp_all
qed

subsection \<open>The temporary file of an uploaded query\<close>

text \<open>When the search and the display succeed, the script removes the file it has saved
  under \<open>temp/\<close>.\<close>

lemma temp_file_removed_on_success:
  assumes "upload_decodes u"
    and "search_and_show tiny argsort extract_features image_open image_feats image_files
           (join ''temp'' (upload_name u)) = Inr results"
  shows "join ''temp'' (upload_name u) \<notin>
           set (temp_files (fst (run_query tiny argsort extract_features image_open
                  image_feats image_files selected_path (Some u) w)))"
  using assms by (simp add: run_query_def Let_def)

text \<open>
  C9. The claim asks that the temporary file of an uploaded query be removed whether the
  search succeeds or fails. The script removes it in its last statement only, so an
  exception before that leaves it behind. Here the cached corpus file
  \<open>images/a.jpg\<close> can no longer be opened when the results are displayed: the script ends
  with that exception and \<open>temp/q.png\<close> is still there.
\<close>

theorem temp_file_left_behind_on_failure:
  "run_query 0 stable_argsort (\<lambda>p. Inr [1, 0]) (\<lambda>p. False) [[1, 0]] [''images/a.jpg'']
     ''images/a.jpg'' (Some \<lparr>upload_name = ''q.png'', upload_decodes = True\<rparr>)
     \<lparr>features_npy = Some (Array [[1, 0]]), filenames_npy = Some (Array [''images/a.jpg'']),
      temp_files = [], st_errors = []\<rparr> =
   (\<lparr>features_npy = Some (Array [[1, 0]]), filenames_npy = Some (Array [''images/a.jpg'']),
     temp_files = [''temp/q.png''], st_errors = []\<rparr>,
    Inl ImageError)"
proof -
  have "find_similar_images 0 stable_argsort (\<lambda>p. Inr [1, 0]) ''temp/q.png''
          [[1, 0]] [''images/a.jpg''] TOP_N =
        comprehension
           (\<lambda>i. if i < length [''images/a.jpg''] \<and> i < length [[1, 0 :: real]]
                then Inr ([''images/a.jpg''] ! i, scores 0 (scaled_row 0 [1, 0]) [[1, 0]] ! i)
                else Inl IndexError)
           (slice_to TOP_N (stable_argsort (map uminus (scores 0 (scaled_row 0 [1, 0]) [[1, 0]]))))"
    by (rule find_similar_images_eval [where D = 2]) simp_all
  also have "\<dots> = Inr [(''images/a.jpg'', 1)]"
    by (simp add: scores_def scaled_row_def l2_norm_def dot_def stable_argsort_def slice_to_def
      TOP_N_def upt_rec)
  finally have f: "find_similar_images 0 stable_argsort (\<lambda>p. Inr [1, 0]) ''temp/q.png''
          [[1, 0]] [''images/a.jpg''] TOP_N = Inr [(''images/a.jpg'', 1)]" .
  have j: "join ''temp'' ''q.png'' = ''temp/q.png''" by (simp add: join_def)
  show ?thesis
    by (simp add: run_query_def search_and_show_def j f Let_def)
qed

end
